theory Spec2Isabelle
  imports Complex_Main
begin

section \<open>The rock-paper-scissors arena of \<^verbatim>\<open>rps_simulator.cpp\<close>\<close>

text \<open>
  The source stores positions, velocities and the radius as \<^verbatim>\<open>float\<close>. They are
  embedded as \<^typ>\<open>real\<close>: every arithmetic operation of the source is the exact
  operation here, and rounding, infinities and NaN are outside the model. The properties
  proved below do not hinge on rounding: they are about kinds, counts, the order of the
  phases, and bounds that monotone rounding keeps; the concrete inputs are small integers
  whose sums, quotients and square roots are exact in binary floating point as well.
  Properties that rounding decides (the overlap test at a near tie, the exact
  preservation of a coordinate sum by the separation nudge) are not stated over this
  model.
\<close>

subsection \<open>Kinds and agents\<close>

datatype ObjectType = ROCK | PAPER | SCISSORS

record GameObject =
  type :: ObjectType
  x :: real
  y :: real
  vx :: real
  vy :: real
  radius :: real

text \<open>
  The standard library's random engines are not part of the repository. An engine is
  represented by the sequence of values in \<open>[0, 1)\<close> it will hand to a distribution
  (\<^verbatim>\<open>generate_canonical\<close>); drawing takes the head and leaves the rest.
  \<^verbatim>\<open>uniform_real_distribution<float>(a, b)\<close> scales a draw to \<open>a + (b - a) * u\<close>.
\<close>

type_synonym generator = "nat \<Rightarrow> real"

definition uniform_real_distribution :: "real \<Rightarrow> real \<Rightarrow> generator \<Rightarrow> real \<times> generator" where
  "uniform_real_distribution a b g = (a + (b - a) * g 0, \<lambda>n. g (Suc n))"

text \<open>
  \<^verbatim>\<open>GameObject::GameObject(t, startX, startY)\<close>: the radius is 5 and the velocity is drawn
  from the function-local \<^verbatim>\<open>static std::mt19937 gen(rd())\<close>, a generator shared by every
  construction in the process and seeded from \<^verbatim>\<open>std::random_device\<close>. Its state is the
  last argument and is returned advanced by two draws.
\<close>

definition GameObject_ctor ::
  "ObjectType \<Rightarrow> real \<Rightarrow> real \<Rightarrow> generator \<Rightarrow> GameObject \<times> generator" where
  "GameObject_ctor t startX startY gen =
     (case uniform_real_distribution (- 2) 2 gen of (v1, gen1) \<Rightarrow>
      case uniform_real_distribution (- 2) 2 gen1 of (v2, gen2) \<Rightarrow>
        (\<lparr>type = t, x = startX, y = startY, vx = v1, vy = v2, radius = 5\<rparr>, gen2))"

text \<open>\<^verbatim>\<open>GameObject::update\<close>: one step of motion.\<close>

definition GameObject_update :: "GameObject \<Rightarrow> GameObject" where
  "GameObject_update obj = obj\<lparr>x := x obj + vx obj, y := y obj + vy obj\<rparr>"

text \<open>\<^verbatim>\<open>GameObject::collidesWith\<close>.\<close>

definition collidesWith :: "GameObject \<Rightarrow> GameObject \<Rightarrow> bool" where
  "collidesWith obj other =
     (let dx = x obj - x other;
          dy = y obj - y other;
          distance = sqrt (dx * dx + dy * dy)
      in distance < radius obj + radius other)"

text \<open>
  \<^verbatim>\<open>GameObject::handleBoundaries\<close>: two consecutive \<^verbatim>\<open>if\<close> statements, the second
  reading the object the first one left.
\<close>

definition handleBoundaries :: "GameObject \<Rightarrow> real \<Rightarrow> real \<Rightarrow> GameObject" where
  "handleBoundaries obj width height =
     (let obj1 =
            (if x obj - radius obj \<le> 0 \<or> x obj + radius obj \<ge> width
             then obj\<lparr>vx := - vx obj,
                      x := max (radius obj) (min (width - radius obj) (x obj))\<rparr>
             else obj)
      in if y obj1 - radius obj1 \<le> 0 \<or> y obj1 + radius obj1 \<ge> height
         then obj1\<lparr>vy := - vy obj1,
                    y := max (radius obj1) (min (height - radius obj1) (y obj1))\<rparr>
         else obj1)"

subsection \<open>The rules\<close>

text \<open>\<^verbatim>\<open>GameRules::determineWinner\<close>, with the source's early return and switch.\<close>

definition determineWinner :: "ObjectType \<Rightarrow> ObjectType \<Rightarrow> ObjectType" where
  "determineWinner type1 type2 =
     (if type1 = type2 then type1
      else case type1 of
             ROCK \<Rightarrow> (if type2 = SCISSORS then ROCK else PAPER)
           | PAPER \<Rightarrow> (if type2 = ROCK then PAPER else SCISSORS)
           | SCISSORS \<Rightarrow> (if type2 = PAPER then SCISSORS else ROCK))"

text \<open>
  \<^verbatim>\<open>GameRules::resolveCollision(obj1, obj2)\<close> mutates both arguments; the model returns
  the pair of updated objects. The two references are distinct elements of the vector at
  every call of the source (\<open>i < j\<close>).
\<close>

definition resolveCollision :: "GameObject \<Rightarrow> GameObject \<Rightarrow> GameObject \<times> GameObject" where
  "resolveCollision obj1 obj2 =
     (let winner = determineWinner (type obj1) (type obj2);
          o1 = obj1\<lparr>type := winner\<rparr>;
          o2 = obj2\<lparr>type := winner\<rparr>;
          dx = x o1 - x o2;
          dy = y o1 - y o2;
          distance = sqrt (dx * dx + dy * dy)
      in if distance > 0
         then (let separationForce = 2
               in (o1\<lparr>x := x o1 + (dx / distance) * separationForce,
                       y := y o1 + (dy / distance) * separationForce\<rparr>,
                   o2\<lparr>x := x o2 - (dx / distance) * separationForce,
                       y := y o2 - (dy / distance) * separationForce\<rparr>))
         else (o1, o2))"

subsection \<open>The arena\<close>

text \<open>
  \<^verbatim>\<open>class RPSSimulator\<close>. The generation counter is a C++ \<^verbatim>\<open>int\<close>; it is only ever
  incremented and no property below reads it, so it is an unbounded integer here.
\<close>

record RPSSimulator =
  objects :: "GameObject list"
  boxWidth :: real
  boxHeight :: real
  rng :: generator
  generation :: int

text \<open>
  One \<^verbatim>\<open>objects.emplace_back(t, xDist(rng), yDist(rng))\<close> of \<^verbatim>\<open>initializeObjects\<close>, with
  \<^verbatim>\<open>xDist(10, boxWidth - 10)\<close> and \<^verbatim>\<open>yDist(10, boxHeight - 10)\<close>. The two position draws
  are taken in the order they are written (C++ leaves the order of the two argument
  evaluations to the compiler). The last argument is the state of the velocity
  generator inside the \<^verbatim>\<open>GameObject\<close> constructor.
\<close>

definition emplace_back ::
  "ObjectType \<Rightarrow> RPSSimulator \<Rightarrow> generator \<Rightarrow> RPSSimulator \<times> generator" where
  "emplace_back t sim gen =
     (case uniform_real_distribution 10 (boxWidth sim - 10) (rng sim) of (startX, rng1) \<Rightarrow>
      case uniform_real_distribution 10 (boxHeight sim - 10) rng1 of (startY, rng2) \<Rightarrow>
      case GameObject_ctor t startX startY gen of (obj, gen') \<Rightarrow>
        (sim\<lparr>objects := objects sim @ [obj], rng := rng2\<rparr>, gen'))"

text \<open>The loop \<^verbatim>\<open>for (int i = 0; i < 5; i++)\<close> of \<^verbatim>\<open>initializeObjects\<close>.\<close>

function initializeLoop ::
  "int \<Rightarrow> RPSSimulator \<Rightarrow> generator \<Rightarrow> RPSSimulator \<times> generator" where
  "initializeLoop i sim gen =
     (if i < 5
      then (case emplace_back ROCK sim gen of (sim1, gen1) \<Rightarrow>
            case emplace_back PAPER sim1 gen1 of (sim2, gen2) \<Rightarrow>
            case emplace_back SCISSORS sim2 gen2 of (sim3, gen3) \<Rightarrow>
              initializeLoop (i + 1) sim3 gen3)
      else (sim, gen))"
  by pat_completeness auto
termination
  by (relation "measure (\<lambda>(i, sim, gen). nat (5 - i))") auto

declare initializeLoop.simps [simp del]

definition initializeObjects :: "RPSSimulator \<Rightarrow> generator \<Rightarrow> RPSSimulator \<times> generator" where
  "initializeObjects sim gen = initializeLoop 0 (sim\<lparr>objects := []\<rparr>) gen"

text \<open>
  \<^verbatim>\<open>RPSSimulator::RPSSimulator(width, height)\<close>. The constructor takes no seed: it seeds
  \<^verbatim>\<open>rng\<close> from \<^verbatim>\<open>steady_clock\<close>. \<open>seeded\<close> is the state of \<^verbatim>\<open>rng\<close> right after
  \<^verbatim>\<open>rng.seed(...)\<close>, which the seed value determines; \<open>gen\<close> is the state of the
  constructor-local velocity generator, which it does not.
\<close>

definition RPSSimulator_ctor ::
  "real \<Rightarrow> real \<Rightarrow> generator \<Rightarrow> generator \<Rightarrow> RPSSimulator \<times> generator" where
  "RPSSimulator_ctor width height seeded gen =
     initializeObjects
       \<lparr>objects = [], boxWidth = width, boxHeight = height, rng = seeded, generation = 0\<rparr>
       gen"

text \<open>
  The collision phase of \<^verbatim>\<open>RPSSimulator::update\<close>: the inner loop over \<open>j\<close> from a given
  start, for a fixed \<open>i\<close>, writing both resolved objects back into the vector. The outer
  loop enters it with \<open>i < j\<close>, so both reads are inside the vector whenever \<open>j\<close> is.
\<close>

function collideInner :: "nat \<Rightarrow> nat \<Rightarrow> GameObject list \<Rightarrow> GameObject list" where
  "collideInner i j objs =
     (if j < length objs
      then collideInner i (j + 1)
             (if collidesWith (objs ! i) (objs ! j)
              then (case resolveCollision (objs ! i) (objs ! j) of
                      (obj1, obj2) \<Rightarrow> objs[i := obj1, j := obj2])
              else objs)
      else objs)"
  by pat_completeness auto
termination
proof (relation "measure (\<lambda>(i, j, objs). length objs - j)")
  show "wf (measure (\<lambda>(i, j, objs). length objs - j))"
    by simp
next
  fix i j :: nat and objs :: "GameObject list"
  assume "j < length objs"
  moreover have "length (if collidesWith (objs ! i) (objs ! j)
              then (case resolveCollision (objs ! i) (objs ! j) of
                      (obj1, obj2) \<Rightarrow> objs[i := obj1, j := obj2])
              else objs) = length objs"
    by (simp split: prod.splits)
  ultimately
  show "((i, j + 1, if collidesWith (objs ! i) (objs ! j)
              then (case resolveCollision (objs ! i) (objs ! j) of
                      (obj1, obj2) \<Rightarrow> objs[i := obj1, j := obj2])
              else objs), i, j, objs) \<in> measure (\<lambda>(i, j, objs). length objs - j)"
    by simp
qed

declare collideInner.simps [simp del]

lemma length_collideInner: "length (collideInner i j objs) = length objs"
proof (induction i j objs rule: collideInner.induct)
  case (1 i j objs)
  show ?case
  proof (cases "j < length objs")
    case True
    then show ?thesis
      using "1.IH" by (subst collideInner.simps) (simp split: prod.splits)
  next
    case False
    then show ?thesis
      by (subst collideInner.simps) simp
  qed
qed

text \<open>The outer loop over \<open>i\<close>; the inner loop starts at \<open>i + 1\<close>.\<close>

function collideOuter :: "nat \<Rightarrow> GameObject list \<Rightarrow> GameObject list" where
  "collideOuter i objs =
     (if i < length objs
      then collideOuter (i + 1) (collideInner i (i + 1) objs)
      else objs)"
  by pat_completeness auto
termination
  by (relation "measure (\<lambda>(i, objs). length objs - i)") (auto simp: length_collideInner)

declare collideOuter.simps [simp del]

text \<open>The motion phase of \<^verbatim>\<open>RPSSimulator::update\<close>: every object moves, then bounces.\<close>

definition moveAll :: "RPSSimulator \<Rightarrow> GameObject list" where
  "moveAll sim =
     map (\<lambda>obj. handleBoundaries (GameObject_update obj) (boxWidth sim) (boxHeight sim))
       (objects sim)"

text \<open>\<^verbatim>\<open>RPSSimulator::update\<close>: motion, collisions, generation counter.\<close>

definition RPSSimulator_update :: "RPSSimulator \<Rightarrow> RPSSimulator" where
  "RPSSimulator_update sim =
     sim\<lparr>objects := collideOuter 0 (moveAll sim), generation := generation sim + 1\<rparr>"

text \<open>
  \<^verbatim>\<open>RPSSimulator::getTypeCounts\<close>: the scan, with the three counters as the accumulator
  (\<open>rocks\<close>, \<open>papers\<close>, \<open>scissors\<close>, all starting at 0).
\<close>

fun countTypes :: "GameObject list \<Rightarrow> int \<times> int \<times> int \<Rightarrow> int \<times> int \<times> int" where
  "countTypes [] counts = counts"
| "countTypes (obj # rest) (rocks, papers, scissors) =
     countTypes rest
       (case type obj of
          ROCK \<Rightarrow> (rocks + 1, papers, scissors)
        | PAPER \<Rightarrow> (rocks, papers + 1, scissors)
        | SCISSORS \<Rightarrow> (rocks, papers, scissors + 1))"

definition getTypeCounts :: "RPSSimulator \<Rightarrow> int \<times> int \<times> int" where
  "getTypeCounts sim = countTypes (objects sim) (0, 0, 0)"

text \<open>\<^verbatim>\<open>RPSSimulator::isGameOver\<close>: the three comparisons are added as 0 or 1.\<close>

definition isGameOver :: "RPSSimulator \<Rightarrow> bool" where
  "isGameOver sim =
     (case getTypeCounts sim of (rocks, papers, scissors) \<Rightarrow>
        (let nonZeroCount =
               (if rocks > 0 then 1 else 0) + (if papers > 0 then 1 else 0)
               + (if scissors > 0 then (1::int) else 0)
         in nonZeroCount \<le> 1))"

text \<open>\<^verbatim>\<open>RPSSimulator::getWinner\<close>: no check of \<^verbatim>\<open>isGameOver\<close>, and a fallback.\<close>

definition getWinner :: "RPSSimulator \<Rightarrow> ObjectType" where
  "getWinner sim =
     (case getTypeCounts sim of (rocks, papers, scissors) \<Rightarrow>
        if rocks > 0 then ROCK
        else if papers > 0 then PAPER
        else if scissors > 0 then SCISSORS
        else ROCK)"

subsection \<open>Concrete generators\<close>

text \<open>
  A generator that hands out the same value at every draw. It stands for the engine state
  in the concrete arenas below, none of which draws from it after construction.
\<close>

definition constant_generator :: "real \<Rightarrow> generator" where
  "constant_generator u = (\<lambda>n. u)"

subsection \<open>Distance between two states of an agent\<close>

text \<open>
  \<open>nearby c a b\<close>: the agents \<open>a\<close> and \<open>b\<close> have the same radius and differ by at most \<open>c\<close>
  in each coordinate. It measures how far the collision phase has moved an agent.
\<close>

definition nearby :: "real \<Rightarrow> GameObject \<Rightarrow> GameObject \<Rightarrow> bool" where
  "nearby c a b = (abs (x a - x b) \<le> c \<and> abs (y a - y b) \<le> c \<and> radius a = radius b)"

section \<open>The dominance rule\<close>

text \<open>
  C4. The dominance function follows the classic table: Rock wins against Scissors,
  Scissors against Paper, Paper against Rock, in whichever order the two kinds are given,
  and two equal kinds give that kind.
\<close>

theorem determineWinner_table:
  "determineWinner ROCK SCISSORS = ROCK \<and> determineWinner SCISSORS ROCK = ROCK
   \<and> determineWinner SCISSORS PAPER = SCISSORS \<and> determineWinner PAPER SCISSORS = SCISSORS
   \<and> determineWinner PAPER ROCK = PAPER \<and> determineWinner ROCK PAPER = PAPER
   \<and> (\<forall>a. determineWinner a a = a)"
  by (simp add: determineWinner_def)

text \<open>
  C5. The dominance function is symmetric: the winner of \<open>a\<close> against \<open>b\<close> is the winner
  of \<open>b\<close> against \<open>a\<close>, for all kinds.
\<close>

theorem determineWinner_symmetric:
  "determineWinner a b = determineWinner b a"
  by (cases a; cases b) (simp_all add: determineWinner_def)

section \<open>Wall reflection\<close>

lemma collideOuter_single: "collideOuter 0 [obj] = [obj]"
  by (simp add: collideOuter.simps collideInner.simps)

lemma handleBoundaries_x:
  "x obj - radius obj \<le> 0 \<or> x obj + radius obj \<ge> width \<Longrightarrow>
     vx (handleBoundaries obj width height) = - vx obj
     \<and> x (handleBoundaries obj width height)
         = max (radius obj) (min (width - radius obj) (x obj))"
  by (simp add: handleBoundaries_def Let_def)

lemma handleBoundaries_y:
  "y obj - radius obj \<le> 0 \<or> y obj + radius obj \<ge> height \<Longrightarrow>
     vy (handleBoundaries obj width height) = - vy obj
     \<and> y (handleBoundaries obj width height)
         = max (radius obj) (min (height - radius obj) (y obj))"
  by (auto simp add: handleBoundaries_def Let_def)

text \<open>
  C7. When the circle touches or crosses a vertical wall after integration
  (\<open>x - radius \<le> 0\<close> or \<open>x + radius \<ge> width\<close>), \<open>handleBoundaries\<close> negates \<open>vx\<close> and sets
  \<open>x\<close> to \<open>max radius (min (width - radius) x)\<close>, which lies in
  \<open>[radius, width - radius]\<close> whenever that interval is not empty; the same holds for \<open>y\<close>,
  \<open>vy\<close> and the height. An agent at \<open>x = 96\<close> with \<open>vx = 2\<close> and radius 5, alone in a
  100 by 100 arena, ends the tick at \<open>x = 95\<close> with \<open>vx = - 2\<close> and the next one at
  \<open>x = 93\<close>.
\<close>

theorem handleBoundaries_reflects:
  "(x obj - radius obj \<le> 0 \<or> x obj + radius obj \<ge> width \<longrightarrow>
      vx (handleBoundaries obj width height) = - vx obj
      \<and> x (handleBoundaries obj width height)
          = max (radius obj) (min (width - radius obj) (x obj))
      \<and> (radius obj \<le> width - radius obj \<longrightarrow>
            radius obj \<le> x (handleBoundaries obj width height)
            \<and> x (handleBoundaries obj width height) \<le> width - radius obj))
   \<and> (y obj - radius obj \<le> 0 \<or> y obj + radius obj \<ge> height \<longrightarrow>
      vy (handleBoundaries obj width height) = - vy obj
      \<and> y (handleBoundaries obj width height)
          = max (radius obj) (min (height - radius obj) (y obj))
      \<and> (radius obj \<le> height - radius obj \<longrightarrow>
            radius obj \<le> y (handleBoundaries obj width height)
            \<and> y (handleBoundaries obj width height) \<le> height - radius obj))
   \<and> objects (RPSSimulator_update
        \<lparr>objects = [\<lparr>type = t, x = 96, y = 50, vx = 2, vy = 0, radius = 5\<rparr>],
         boxWidth = 100, boxHeight = 100, rng = r, generation = g\<rparr>)
       = [\<lparr>type = t, x = 95, y = 50, vx = - 2, vy = 0, radius = 5\<rparr>]
   \<and> objects (RPSSimulator_update (RPSSimulator_update
        \<lparr>objects = [\<lparr>type = t, x = 96, y = 50, vx = 2, vy = 0, radius = 5\<rparr>],
         boxWidth = 100, boxHeight = 100, rng = r, generation = g\<rparr>))
       = [\<lparr>type = t, x = 93, y = 50, vx = - 2, vy = 0, radius = 5\<rparr>]"
proof -
  have tick:
    "objects (RPSSimulator_update
        \<lparr>objects = [\<lparr>type = t, x = a, y = 50, vx = v, vy = 0, radius = 5\<rparr>],
         boxWidth = 100, boxHeight = 100, rng = r', generation = g'\<rparr>)
     = [handleBoundaries \<lparr>type = t, x = a + v, y = 50, vx = v, vy = 0, radius = 5\<rparr> 100 100]"
    for a v r' g'
    by (simp add: RPSSimulator_update_def moveAll_def GameObject_update_def collideOuter_single)
  have first: "RPSSimulator_update
        \<lparr>objects = [\<lparr>type = t, x = 96, y = 50, vx = 2, vy = 0, radius = 5\<rparr>],
         boxWidth = 100, boxHeight = 100, rng = r, generation = g\<rparr>
     = \<lparr>objects = [\<lparr>type = t, x = 95, y = 50, vx = - 2, vy = 0, radius = 5\<rparr>],
         boxWidth = 100, boxHeight = 100, rng = r, generation = g + 1\<rparr>"
    by (simp add: RPSSimulator_update_def moveAll_def GameObject_update_def
        collideOuter_single handleBoundaries_def)
  have second: "objects (RPSSimulator_update
        \<lparr>objects = [\<lparr>type = t, x = 95, y = 50, vx = - 2, vy = 0, radius = 5\<rparr>],
         boxWidth = 100, boxHeight = 100, rng = r, generation = g + 1\<rparr>)
       = [\<lparr>type = t, x = 93, y = 50, vx = - 2, vy = 0, radius = 5\<rparr>]"
    by (simp add: tick handleBoundaries_def)
  show ?thesis
    using handleBoundaries_x [of obj width height] handleBoundaries_y [of obj height width]
    by (simp only: first second) auto
qed

theorem handleBoundaries_reflects_witness:
  "(98::real) + 5 \<ge> 100 \<and> (5::real) \<le> 100 - 5
   \<and> vx (handleBoundaries \<lparr>type = ROCK, x = 98, y = 3, vx = 2, vy = - 1, radius = 5\<rparr> 100 100) = - 2
   \<and> x (handleBoundaries \<lparr>type = ROCK, x = 98, y = 3, vx = 2, vy = - 1, radius = 5\<rparr> 100 100) = 95
   \<and> (3::real) - 5 \<le> 0
   \<and> vy (handleBoundaries \<lparr>type = ROCK, x = 98, y = 3, vx = 2, vy = - 1, radius = 5\<rparr> 100 100) = 1
   \<and> y (handleBoundaries \<lparr>type = ROCK, x = 98, y = 3, vx = 2, vy = - 1, radius = 5\<rparr> 100 100) = 5"
  using handleBoundaries_reflects
    [of "\<lparr>type = ROCK, x = 98, y = 3, vx = 2, vy = - 1, radius = 5\<rparr>" 100 100]
  by simp

section \<open>The collision loops preserve invariants\<close>

text \<open>
  Any property of the vector that survives one resolved pair \<open>i < k\<close> survives the inner
  loop, and then the whole collision phase.
\<close>

lemma collideInner_invariant:
  assumes "P objs" and "i < j"
    and "\<And>os k. P os \<Longrightarrow> i < k \<Longrightarrow> k < length os \<Longrightarrow> collidesWith (os ! i) (os ! k) \<Longrightarrow>
              P (os[i := fst (resolveCollision (os ! i) (os ! k)),
                    k := snd (resolveCollision (os ! i) (os ! k))])"
  shows "P (collideInner i j objs)"
  using assms
proof (induction i j objs rule: collideInner.induct)
  case (1 i j objs)
  note step = "1.prems"(3)
  show ?case
  proof (cases "j < length objs")
    case False
    then show ?thesis
      using "1.prems"(1) by (subst collideInner.simps) simp
  next
    case True
    let ?next = "if collidesWith (objs ! i) (objs ! j)
              then (case resolveCollision (objs ! i) (objs ! j) of
                      (obj1, obj2) \<Rightarrow> objs[i := obj1, j := obj2])
              else objs"
    have "P ?next"
    proof (cases "collidesWith (objs ! i) (objs ! j)")
      case hit: True
      then show ?thesis
        using step [OF "1.prems"(1) "1.prems"(2) True hit] by (simp add: case_prod_beta)
    next
      case False
      then show ?thesis using "1.prems"(1) by simp
    qed
    moreover have "i < j + 1"
      using "1.prems"(2) by simp
    ultimately have "P (collideInner i (j + 1) ?next)"
      using step by (rule "1.IH" [OF True])
    then show ?thesis
      using True by (subst collideInner.simps) simp
  qed
qed

lemma collideOuter_invariant:
  assumes "P objs"
    and step: "\<And>os i k. P os \<Longrightarrow> i < k \<Longrightarrow> k < length os \<Longrightarrow> collidesWith (os ! i) (os ! k) \<Longrightarrow>
              P (os[i := fst (resolveCollision (os ! i) (os ! k)),
                    k := snd (resolveCollision (os ! i) (os ! k))])"
  shows "P (collideOuter i objs)"
  using assms(1)
proof (induction i objs rule: collideOuter.induct)
  case (1 i objs)
  show ?case
  proof (cases "i < length objs")
    case False
    then show ?thesis
      using "1.prems" by (subst collideOuter.simps) simp
  next
    case True
    have "P (collideInner i (i + 1) objs)"
    proof (rule collideInner_invariant [of P])
      show "P objs" by (rule "1.prems")
      show "i < i + 1" by simp
    qed (rule step)
    then have "P (collideOuter (i + 1) (collideInner i (i + 1) objs))"
      by (rule "1.IH" [OF True])
    then show ?thesis
      using True by (subst collideOuter.simps) simp
  qed
qed

lemma length_collideOuter: "length (collideOuter i objs) = length objs"
  by (rule collideOuter_invariant [where P = "\<lambda>os. length os = length objs"]) simp_all

section \<open>Conservation of agents\<close>

lemma length_moveAll: "length (moveAll sim) = length (objects sim)"
  by (simp add: moveAll_def)

lemma length_update: "length (objects (RPSSimulator_update sim)) = length (objects sim)"
  by (simp add: RPSSimulator_update_def length_collideOuter length_moveAll)

lemma length_update_funpow:
  "length (objects ((RPSSimulator_update ^^ n) sim)) = length (objects sim)"
  by (induction n) (simp_all add: length_update)

lemma countTypes_sum:
  "(case countTypes objs (rocks, papers, scissors) of
      (rocks', papers', scissors') \<Rightarrow>
        rocks' + papers' + scissors' = rocks + papers + scissors + int (length objs))"
proof (induction objs arbitrary: rocks papers scissors)
  case Nil
  show ?case by simp
next
  case (Cons obj rest)
  show ?case
    using Cons.IH [of "rocks + 1" papers scissors] Cons.IH [of rocks "papers + 1" scissors]
      Cons.IH [of rocks papers "scissors + 1"]
    by (cases "type obj") (simp_all split: prod.splits)
qed

lemma getTypeCounts_sum:
  "(case getTypeCounts sim of (rocks, papers, scissors) \<Rightarrow>
      rocks + papers + scissors = int (length (objects sim)))"
  using countTypes_sum [where objs = "objects sim" and rocks = 0 and papers = 0 and scissors = 0] by (simp add: getTypeCounts_def)

lemma length_emplace_back:
  "emplace_back t sim gen = (sim', gen') \<Longrightarrow> length (objects sim') = length (objects sim) + 1"
  by (auto simp add: emplace_back_def split: prod.splits)

lemma length_initializeLoop:
  "length (objects (fst (initializeLoop i sim gen))) = length (objects sim) + 3 * nat (5 - i)"
proof (induction i sim gen rule: initializeLoop.induct)
  case (1 i sim gen)
  show ?case
  proof (cases "i < 5")
    case False
    then show ?thesis by (subst initializeLoop.simps) simp
  next
    case True
    obtain sim1 gen1 where e1: "emplace_back ROCK sim gen = (sim1, gen1)" by fastforce
    obtain sim2 gen2 where e2: "emplace_back PAPER sim1 gen1 = (sim2, gen2)" by fastforce
    obtain sim3 gen3 where e3: "emplace_back SCISSORS sim2 gen2 = (sim3, gen3)" by fastforce
    have "length (objects (fst (initializeLoop (i + 1) sim3 gen3)))
            = length (objects sim3) + 3 * nat (5 - (i + 1))"
      using "1.IH" [OF True e1 [symmetric] e2 [symmetric] e3 [symmetric]] .
    moreover have "length (objects sim3) = length (objects sim) + 3"
      using length_emplace_back [OF e1] length_emplace_back [OF e2] length_emplace_back [OF e3]
      by simp
    moreover have "3 * nat (5 - (i + 1)) + 3 = 3 * nat (5 - i)"
      using True by simp
    ultimately show ?thesis
      using True e1 e2 e3 by (subst initializeLoop.simps) simp
  qed
qed

lemma length_ctor: "length (objects (fst (RPSSimulator_ctor width height seeded gen))) = 15"
  by (simp add: RPSSimulator_ctor_def initializeObjects_def length_initializeLoop)


text \<open>
  C8. From the standard initialisation the arena holds 15 agents after any number of
  ticks, and the three counts of \<open>getTypeCounts\<close> add up to 15. For any arena, a tick
  keeps the number of agents and the three counts add up to it.
\<close>

theorem agent_count_conserved:
  "length (objects ((RPSSimulator_update ^^ n)
       (fst (RPSSimulator_ctor width height seeded gen)))) = 15
   \<and> (case getTypeCounts ((RPSSimulator_update ^^ n)
              (fst (RPSSimulator_ctor width height seeded gen))) of
         (rocks, papers, scissors) \<Rightarrow> rocks + papers + scissors = 15)
   \<and> length (objects (RPSSimulator_update sim)) = length (objects sim)
   \<and> (case getTypeCounts sim of
         (rocks, papers, scissors) \<Rightarrow> rocks + papers + scissors = int (length (objects sim)))"
proof -
  let ?s = "(RPSSimulator_update ^^ n) (fst (RPSSimulator_ctor width height seeded gen))"
  have len: "length (objects ?s) = 15"
    by (simp add: length_update_funpow length_ctor)
  have "(case getTypeCounts ?s of
          (rocks, papers, scissors) \<Rightarrow> rocks + papers + scissors = 15)"
    using getTypeCounts_sum [of ?s] by (simp only: len) simp
  then show ?thesis
    using len length_update [of sim] getTypeCounts_sum [of sim] by blast
qed

section \<open>Kinds present in the arena\<close>

lemma countTypes_filter:
  "countTypes objs (rocks, papers, scissors)
     = (rocks + int (length (filter (\<lambda>obj. type obj = ROCK) objs)),
        papers + int (length (filter (\<lambda>obj. type obj = PAPER) objs)),
        scissors + int (length (filter (\<lambda>obj. type obj = SCISSORS) objs)))"
proof (induction objs arbitrary: rocks papers scissors)
  case Nil
  show ?case by simp
next
  case (Cons obj rest)
  show ?case
    by (cases "type obj") (simp_all add: Cons.IH)
qed

lemma count_positive_iff:
  "(0 < int (length (filter (\<lambda>obj. type obj = t) objs))) = (\<exists>obj \<in> set objs. type obj = t)"
  by (simp add: filter_empty_conv)

lemma getTypeCounts_positive:
  "getTypeCounts sim = (rocks, papers, scissors) \<Longrightarrow>
     (0 < rocks) = (\<exists>obj \<in> set (objects sim). type obj = ROCK)
     \<and> (0 < papers) = (\<exists>obj \<in> set (objects sim). type obj = PAPER)
     \<and> (0 < scissors) = (\<exists>obj \<in> set (objects sim). type obj = SCISSORS)"
  using count_positive_iff [of ROCK "objects sim"] count_positive_iff [of PAPER "objects sim"]
    count_positive_iff [of SCISSORS "objects sim"]
  by (simp add: getTypeCounts_def countTypes_filter)

lemma isGameOver_iff:
  "isGameOver sim = (\<exists>t. \<forall>obj \<in> set (objects sim). type obj = t)"
proof -
  obtain rocks papers scissors where c: "getTypeCounts sim = (rocks, papers, scissors)"
    by (cases "getTypeCounts sim") auto
  note pos = getTypeCounts_positive [OF c]
  have "isGameOver sim =
      (\<not> (0 < rocks \<and> 0 < papers) \<and> \<not> (0 < rocks \<and> 0 < scissors)
       \<and> \<not> (0 < papers \<and> 0 < scissors))"
    by (simp add: isGameOver_def c Let_def)
  also have "\<dots> = (\<exists>t. \<forall>obj \<in> set (objects sim). type obj = t)"
  proof
    assume a: "\<not> (0 < rocks \<and> 0 < papers) \<and> \<not> (0 < rocks \<and> 0 < scissors)
       \<and> \<not> (0 < papers \<and> 0 < scissors)"
    show "\<exists>t. \<forall>obj \<in> set (objects sim). type obj = t"
    proof (cases "0 < rocks")
      case True
      then have "\<forall>obj \<in> set (objects sim). type obj = ROCK"
        using a pos by (metis ObjectType.exhaust)
      then show ?thesis ..
    next
      case noRock: False
      show ?thesis
      proof (cases "0 < papers")
        case True
        then have "\<forall>obj \<in> set (objects sim). type obj = PAPER"
          using a pos noRock by (metis ObjectType.exhaust)
        then show ?thesis ..
      next
        case False
        then have "\<forall>obj \<in> set (objects sim). type obj = SCISSORS"
          using pos noRock by (metis ObjectType.exhaust)
        then show ?thesis ..
      qed
    qed
  next
    assume "\<exists>t. \<forall>obj \<in> set (objects sim). type obj = t"
    then obtain t where "\<forall>obj \<in> set (objects sim). type obj = t" ..
    then show "\<not> (0 < rocks \<and> 0 < papers) \<and> \<not> (0 < rocks \<and> 0 < scissors)
       \<and> \<not> (0 < papers \<and> 0 < scissors)"
      using pos by (cases t) auto
  qed
  finally show ?thesis .
qed

lemma type_handleBoundaries: "type (handleBoundaries obj width height) = type obj"
  by (simp add: handleBoundaries_def Let_def)

lemma type_GameObject_update: "type (GameObject_update obj) = type obj"
  by (simp add: GameObject_update_def)

lemma type_resolveCollision:
  "type (fst (resolveCollision a b)) = determineWinner (type a) (type b)
   \<and> type (snd (resolveCollision a b)) = determineWinner (type a) (type b)"
  by (simp add: resolveCollision_def Let_def)

lemma collideOuter_one_kind:
  assumes "\<forall>obj \<in> set objs. type obj = t"
  shows "\<forall>obj \<in> set (collideOuter i objs). type obj = t"
proof (rule collideOuter_invariant [of "\<lambda>os. \<forall>obj \<in> set os. type obj = t"])
  show "\<forall>obj \<in> set objs. type obj = t" by (rule assms)
next
  fix os :: "GameObject list" and i k :: nat
  assume same: "\<forall>obj \<in> set os. type obj = t" and "i < k" and "k < length os"
  then have "type (os ! i) = t" and "type (os ! k) = t"
    by simp_all
  then have w: "type (fst (resolveCollision (os ! i) (os ! k))) = t"
      "type (snd (resolveCollision (os ! i) (os ! k))) = t"
    by (simp_all add: type_resolveCollision determineWinner_def)
  show "\<forall>obj \<in> set (os[i := fst (resolveCollision (os ! i) (os ! k)),
                         k := snd (resolveCollision (os ! i) (os ! k))]). type obj = t"
  proof
    fix obj
    assume "obj \<in> set (os[i := fst (resolveCollision (os ! i) (os ! k)),
                         k := snd (resolveCollision (os ! i) (os ! k))])"
    then have "obj = snd (resolveCollision (os ! i) (os ! k))
               \<or> obj = fst (resolveCollision (os ! i) (os ! k)) \<or> obj \<in> set os"
      by (auto dest!: set_update_subset_insert [THEN subsetD])
    then show "type obj = t"
      using w same by auto
  qed
qed

lemma update_one_kind:
  assumes "\<forall>obj \<in> set (objects sim). type obj = t"
  shows "\<forall>obj \<in> set (objects (RPSSimulator_update sim)). type obj = t"
proof -
  have "\<forall>obj \<in> set (moveAll sim). type obj = t"
    using assms by (simp add: moveAll_def type_handleBoundaries type_GameObject_update)
  then have "\<forall>obj \<in> set (collideOuter 0 (moveAll sim)). type obj = t"
    by (rule collideOuter_one_kind)
  then show ?thesis
    by (simp add: RPSSimulator_update_def)
qed

lemma funpow_one_kind:
  "\<forall>obj \<in> set (objects sim). type obj = t \<Longrightarrow>
   \<forall>obj \<in> set (objects ((RPSSimulator_update ^^ n) sim)). type obj = t"
proof (induction n)
  case 0
  then show ?case by simp
next
  case (Suc n)
  have "\<forall>obj \<in> set (objects (RPSSimulator_update ((RPSSimulator_update ^^ n) sim))). type obj = t"
    using Suc.IH [OF Suc.prems] by (rule update_one_kind)
  then show ?case by simp
qed

section \<open>A finished game stays finished\<close>

text \<open>
  C9. \<open>isGameOver\<close> is absorbing: if it holds of an arena, it holds after any number of
  further ticks, and no agent has changed its kind.
\<close>

theorem isGameOver_absorbing:
  "isGameOver sim \<Longrightarrow>
     isGameOver ((RPSSimulator_update ^^ n) sim)
     \<and> map type (objects ((RPSSimulator_update ^^ n) sim)) = map type (objects sim)"
proof -
  assume "isGameOver sim"
  then obtain t where before: "\<forall>obj \<in> set (objects sim). type obj = t"
    by (auto simp add: isGameOver_iff)
  then have after: "\<forall>obj \<in> set (objects ((RPSSimulator_update ^^ n) sim)). type obj = t"
    by (rule funpow_one_kind)
  then have "isGameOver ((RPSSimulator_update ^^ n) sim)"
    by (auto simp add: isGameOver_iff)
  moreover have "map type (objects ((RPSSimulator_update ^^ n) sim))
                   = replicate (length (objects ((RPSSimulator_update ^^ n) sim))) t"
    using after by (simp add: map_replicate_const [symmetric] cong: map_cong)
  moreover have "map type (objects sim) = replicate (length (objects sim)) t"
    using before by (simp add: map_replicate_const [symmetric] cong: map_cong)
  ultimately show ?thesis
    by (simp add: length_update_funpow)
qed


theorem isGameOver_absorbing_witness:
  "isGameOver
     \<lparr>objects = [\<lparr>type = ROCK, x = 40, y = 50, vx = 1, vy = 0, radius = 5\<rparr>,
                 \<lparr>type = ROCK, x = 60, y = 50, vx = - 1, vy = 0, radius = 5\<rparr>],
      boxWidth = 100, boxHeight = 100, rng = constant_generator 0, generation = 0\<rparr>
   \<and> isGameOver ((RPSSimulator_update ^^ 7)
     \<lparr>objects = [\<lparr>type = ROCK, x = 40, y = 50, vx = 1, vy = 0, radius = 5\<rparr>,
                 \<lparr>type = ROCK, x = 60, y = 50, vx = - 1, vy = 0, radius = 5\<rparr>],
      boxWidth = 100, boxHeight = 100, rng = constant_generator 0, generation = 0\<rparr>)
   \<and> map type (objects ((RPSSimulator_update ^^ 7)
     \<lparr>objects = [\<lparr>type = ROCK, x = 40, y = 50, vx = 1, vy = 0, radius = 5\<rparr>,
                 \<lparr>type = ROCK, x = 60, y = 50, vx = - 1, vy = 0, radius = 5\<rparr>],
      boxWidth = 100, boxHeight = 100, rng = constant_generator 0, generation = 0\<rparr>))
     = [ROCK, ROCK]"
proof -
  let ?sim = "\<lparr>objects = [\<lparr>type = ROCK, x = 40, y = 50, vx = 1, vy = 0, radius = 5\<rparr>,
                 \<lparr>type = ROCK, x = 60, y = 50, vx = - 1, vy = 0, radius = 5\<rparr>],
      boxWidth = 100, boxHeight = 100, rng = constant_generator 0, generation = 0\<rparr>"
  have over: "isGameOver ?sim"
    by (simp add: isGameOver_def getTypeCounts_def)
  show ?thesis
    using over isGameOver_absorbing [OF over, of 7] by simp
qed

section \<open>The winner query\<close>

lemma getWinner_first_present:
  "getWinner sim =
     (if \<exists>obj \<in> set (objects sim). type obj = ROCK then ROCK
      else if \<exists>obj \<in> set (objects sim). type obj = PAPER then PAPER
      else if \<exists>obj \<in> set (objects sim). type obj = SCISSORS then SCISSORS
      else ROCK)"
proof -
  obtain rocks papers scissors where c: "getTypeCounts sim = (rocks, papers, scissors)"
    by (cases "getTypeCounts sim") auto
  show ?thesis
    using getTypeCounts_positive [OF c] by (simp add: getWinner_def c)
qed


text \<open>
  C3, as the code has it. \<open>getWinner\<close> does not check \<open>isGameOver\<close> and never fails: it
  returns the first kind present in the order Rock, Paper, Scissors, and Rock for an
  arena without agents. When the game is over this is the kind of every agent; when it
  is not over, it is Rock if a Rock is present and Paper otherwise.
\<close>

theorem getWinner_total:
  "getWinner sim =
     (if \<exists>obj \<in> set (objects sim). type obj = ROCK then ROCK
      else if \<exists>obj \<in> set (objects sim). type obj = PAPER then PAPER
      else if \<exists>obj \<in> set (objects sim). type obj = SCISSORS then SCISSORS
      else ROCK)
   \<and> (isGameOver sim \<longrightarrow> (\<forall>obj \<in> set (objects sim). type obj = getWinner sim))
   \<and> (\<not> isGameOver sim \<longrightarrow>
        getWinner sim = (if \<exists>obj \<in> set (objects sim). type obj = ROCK then ROCK else PAPER))"
proof (intro conjI impI)
  show "getWinner sim =
     (if \<exists>obj \<in> set (objects sim). type obj = ROCK then ROCK
      else if \<exists>obj \<in> set (objects sim). type obj = PAPER then PAPER
      else if \<exists>obj \<in> set (objects sim). type obj = SCISSORS then SCISSORS
      else ROCK)"
    by (rule getWinner_first_present)
next
  assume "isGameOver sim"
  then obtain t where same: "\<forall>obj \<in> set (objects sim). type obj = t"
    by (auto simp add: isGameOver_iff)
  show "\<forall>obj \<in> set (objects sim). type obj = getWinner sim"
  proof (cases "objects sim = []")
    case True
    then show ?thesis by simp
  next
    case False
    then obtain obj where "obj \<in> set (objects sim)"
      by (cases "objects sim") auto
    then have "getWinner sim = t"
      using same by (cases t) (auto simp add: getWinner_first_present)
    then show ?thesis
      using same by simp
  qed
next
  assume notOver: "\<not> isGameOver sim"
  show "getWinner sim = (if \<exists>obj \<in> set (objects sim). type obj = ROCK then ROCK else PAPER)"
  proof (cases "\<exists>obj \<in> set (objects sim). type obj = ROCK")
    case True
    then show ?thesis by (simp add: getWinner_first_present)
  next
    case False
    have "\<exists>obj \<in> set (objects sim). type obj = PAPER"
    proof (rule ccontr)
      assume "\<not> (\<exists>obj \<in> set (objects sim). type obj = PAPER)"
      with False have "\<forall>obj \<in> set (objects sim). type obj \<noteq> ROCK \<and> type obj \<noteq> PAPER"
        by blast
      then have "\<forall>obj \<in> set (objects sim). type obj = SCISSORS"
        using ObjectType.exhaust by blast
      then show False
        using notOver isGameOver_iff by blast
    qed
    then show ?thesis
      using False by (simp add: getWinner_first_present)
  qed
qed


theorem getWinner_total_witness:
  "\<not> isGameOver
       \<lparr>objects = [\<lparr>type = PAPER, x = 40, y = 50, vx = 1, vy = 0, radius = 5\<rparr>,
                   \<lparr>type = SCISSORS, x = 60, y = 50, vx = - 1, vy = 0, radius = 5\<rparr>],
        boxWidth = 100, boxHeight = 100, rng = constant_generator 0, generation = 0\<rparr>
   \<and> getWinner
       \<lparr>objects = [\<lparr>type = PAPER, x = 40, y = 50, vx = 1, vy = 0, radius = 5\<rparr>,
                   \<lparr>type = SCISSORS, x = 60, y = 50, vx = - 1, vy = 0, radius = 5\<rparr>],
        boxWidth = 100, boxHeight = 100, rng = constant_generator 0, generation = 0\<rparr>
     = PAPER
   \<and> isGameOver
       \<lparr>objects = [\<lparr>type = SCISSORS, x = 40, y = 50, vx = 1, vy = 0, radius = 5\<rparr>,
                   \<lparr>type = SCISSORS, x = 60, y = 50, vx = - 1, vy = 0, radius = 5\<rparr>],
        boxWidth = 100, boxHeight = 100, rng = constant_generator 0, generation = 0\<rparr>
   \<and> getWinner
       \<lparr>objects = [\<lparr>type = SCISSORS, x = 40, y = 50, vx = 1, vy = 0, radius = 5\<rparr>,
                   \<lparr>type = SCISSORS, x = 60, y = 50, vx = - 1, vy = 0, radius = 5\<rparr>],
        boxWidth = 100, boxHeight = 100, rng = constant_generator 0, generation = 0\<rparr>
     = SCISSORS"
proof -
  let ?two = "\<lparr>objects = [\<lparr>type = PAPER, x = 40, y = 50, vx = 1, vy = 0, radius = 5\<rparr>,
                   \<lparr>type = SCISSORS, x = 60, y = 50, vx = - 1, vy = 0, radius = 5\<rparr>],
        boxWidth = 100, boxHeight = 100, rng = constant_generator 0, generation = 0\<rparr>"
  let ?one = "\<lparr>objects = [\<lparr>type = SCISSORS, x = 40, y = 50, vx = 1, vy = 0, radius = 5\<rparr>,
                   \<lparr>type = SCISSORS, x = 60, y = 50, vx = - 1, vy = 0, radius = 5\<rparr>],
        boxWidth = 100, boxHeight = 100, rng = constant_generator 0, generation = 0\<rparr>"
  have notOver: "\<not> isGameOver ?two"
    by (simp add: isGameOver_def getTypeCounts_def)
  have over: "isGameOver ?one"
    by (simp add: isGameOver_def getTypeCounts_def)
  have "getWinner ?two = PAPER"
    using notOver getWinner_total [of ?two] by simp
  moreover have "getWinner ?one = SCISSORS"
    using over getWinner_total [of ?one] by simp
  ultimately show ?thesis
    using notOver over by simp
qed

text \<open>
  C3, as the claim states it, fails: an arena with one Rock and one Paper is not over,
  and \<open>getWinner\<close> returns Rock as an ordinary result.
\<close>

theorem getWinner_unchecked:
  "\<not> isGameOver
       \<lparr>objects = [\<lparr>type = ROCK, x = 40, y = 50, vx = 1, vy = 0, radius = 5\<rparr>,
                   \<lparr>type = PAPER, x = 60, y = 50, vx = - 1, vy = 0, radius = 5\<rparr>],
        boxWidth = 100, boxHeight = 100, rng = constant_generator 0, generation = 0\<rparr>
   \<and> getWinner
       \<lparr>objects = [\<lparr>type = ROCK, x = 40, y = 50, vx = 1, vy = 0, radius = 5\<rparr>,
                   \<lparr>type = PAPER, x = 60, y = 50, vx = - 1, vy = 0, radius = 5\<rparr>],
        boxWidth = 100, boxHeight = 100, rng = constant_generator 0, generation = 0\<rparr>
     = ROCK"
  by (simp add: isGameOver_def getWinner_def getTypeCounts_def)

section \<open>How far a tick moves an agent\<close>

text \<open>
  One resolved collision moves each of the two agents by the vector \<open>(dx / d, dy / d) * 2\<close>,
  whose components are at most 2 in absolute value. In the inner loop for \<open>i\<close>, agent \<open>i\<close>
  meets every later agent once; in the whole phase every agent meets every other once.
\<close>

lemma nearby_refl: "0 \<le> c \<Longrightarrow> nearby c a a"
  by (simp add: nearby_def)

lemma nearby_trans: "nearby c a b \<Longrightarrow> nearby d b e \<Longrightarrow> nearby (c + d) a e"
  by (auto simp add: nearby_def)

lemma unit_component:
  fixes dx dy :: real
  assumes "0 < sqrt (dx * dx + dy * dy)"
  shows "\<bar>dx / sqrt (dx * dx + dy * dy) * 2\<bar> \<le> 2"
proof -
  define d where "d = sqrt (dx * dx + dy * dy)"
  have pos: "0 < d"
    using assms by (simp add: d_def)
  have "\<bar>dx\<bar> = sqrt (dx * dx)"
    by (simp only: real_sqrt_abs2)
  also have "\<dots> \<le> d"
    unfolding d_def by (rule real_sqrt_le_mono) simp
  finally have le: "\<bar>dx\<bar> \<le> d" .
  have "\<bar>dx / d * 2\<bar> = \<bar>dx\<bar> * 2 / d"
    using pos by (simp add: abs_mult)
  also have "\<dots> \<le> 2"
    using pos le by (simp add: divide_le_eq)
  finally have "\<bar>dx / d * 2\<bar> \<le> 2" .
  then show ?thesis
    by (simp only: d_def)
qed

lemma resolveCollision_nearby:
  "nearby 2 (fst (resolveCollision a b)) a \<and> nearby 2 (snd (resolveCollision a b)) b"
proof -
  let ?dx = "x a - x b" and ?dy = "y a - y b"
  show ?thesis
  proof (cases "0 < sqrt (?dx * ?dx + ?dy * ?dy)")
    case True
    have "\<bar>?dx / sqrt (?dx * ?dx + ?dy * ?dy) * 2\<bar> \<le> 2"
      using True by (rule unit_component)
    moreover have "\<bar>?dy / sqrt (?dx * ?dx + ?dy * ?dy) * 2\<bar> \<le> 2"
      using True unit_component [of ?dy ?dx] by (simp add: add.commute)
    ultimately show ?thesis
      using True by (simp add: resolveCollision_def Let_def nearby_def)
  next
    case False
    then show ?thesis
      by (simp add: resolveCollision_def Let_def nearby_def)
  qed
qed

lemma collideInner_step_nearby:
  assumes "i < j" and "j < length os"
  defines "os1 \<equiv> (if collidesWith (os ! i) (os ! j)
              then (case resolveCollision (os ! i) (os ! j) of
                      (obj1, obj2) \<Rightarrow> os[i := obj1, j := obj2])
              else os)"
  shows "length os1 = length os"
    and "nearby 2 (os1 ! i) (os ! i)"
    and "nearby 2 (os1 ! j) (os ! j)"
    and "\<And>m. m \<noteq> i \<Longrightarrow> m \<noteq> j \<Longrightarrow> os1 ! m = os ! m"
proof -
  show "length os1 = length os"
    by (simp add: os1_def split: prod.splits)
  show "nearby 2 (os1 ! i) (os ! i)"
    using assms(1,2) resolveCollision_nearby [of "os ! i" "os ! j"]
    by (simp add: os1_def case_prod_beta nearby_refl)
  show "nearby 2 (os1 ! j) (os ! j)"
    using assms(1,2) resolveCollision_nearby [of "os ! i" "os ! j"]
    by (simp add: os1_def case_prod_beta nearby_refl)
  show "os1 ! m = os ! m" if "m \<noteq> i" "m \<noteq> j" for m
    using that by (simp add: os1_def case_prod_beta)
qed

lemma collideInner_displacement:
  "i < j \<Longrightarrow> m < length os \<Longrightarrow>
     (m = i \<longrightarrow> nearby (2 * real (length os - j)) (collideInner i j os ! m) (os ! m))
     \<and> (j \<le> m \<longrightarrow> nearby 2 (collideInner i j os ! m) (os ! m))
     \<and> (m < j \<and> m \<noteq> i \<longrightarrow> collideInner i j os ! m = os ! m)"
proof (induction i j os rule: collideInner.induct)
  case (1 i j os)
  show ?case
  proof (cases "j < length os")
    case False
    then show ?thesis
      using "1.prems" by (subst (1 2 3) collideInner.simps) (simp add: nearby_refl)
  next
    case True
    define os1 where "os1 = (if collidesWith (os ! i) (os ! j)
              then (case resolveCollision (os ! i) (os ! j) of
                      (obj1, obj2) \<Rightarrow> os[i := obj1, j := obj2])
              else os)"
    note step = collideInner_step_nearby [OF "1.prems"(1) True, folded os1_def]
    have unfold: "collideInner i j os = collideInner i (j + 1) os1"
      using True by (subst collideInner.simps) (simp add: os1_def)
    have a: "i < j + 1"
      using "1.prems"(1) by simp
    have b: "m < length os1"
      using "1.prems"(2) step(1) by simp
    note IH = "1.IH" [OF True a b [unfolded os1_def], folded os1_def]
    have budget: "2 * real (length os1 - (j + 1)) + 2 = 2 * real (length os - j)"
      using True step(1) by (simp add: of_nat_diff)
    show ?thesis
    proof (intro conjI impI)
      assume "m = i"
      then have "nearby (2 * real (length os1 - (j + 1)) + 2) (collideInner i (j + 1) os1 ! m) (os ! m)"
        using IH step(2) nearby_trans by blast
      then show "nearby (2 * real (length os - j)) (collideInner i j os ! m) (os ! m)"
        by (simp only: budget unfold)
    next
      assume "j \<le> m"
      show "nearby 2 (collideInner i j os ! m) (os ! m)"
      proof (cases "m = j")
        case True
        then have "collideInner i (j + 1) os1 ! m = os1 ! m"
          using IH "1.prems"(1) by simp
        then show ?thesis
          using step(3) True by (simp add: unfold)
      next
        case False
        then have "j + 1 \<le> m" and "m \<noteq> i" and "m \<noteq> j"
          using \<open>j \<le> m\<close> "1.prems"(1) by simp_all
        then have "nearby 2 (collideInner i (j + 1) os1 ! m) (os1 ! m)" and "os1 ! m = os ! m"
          using IH step(4) by simp_all
        then show ?thesis
          by (simp add: unfold)
      qed
    next
      assume "m < j \<and> m \<noteq> i"
      then have "collideInner i (j + 1) os1 ! m = os1 ! m" and "os1 ! m = os ! m"
        using IH step(4) by simp_all
      then show "collideInner i j os ! m = os ! m"
        by (simp add: unfold)
    qed
  qed
qed

lemma collideOuter_displacement:
  "m < length os \<Longrightarrow>
     (m < i \<longrightarrow> collideOuter i os ! m = os ! m)
     \<and> (i \<le> m \<longrightarrow> nearby (2 * real (length os - 1 - i)) (collideOuter i os ! m) (os ! m))"
proof (induction i os rule: collideOuter.induct)
  case (1 i os)
  show ?case
  proof (cases "i < length os")
    case False
    then show ?thesis
      using "1.prems" by (subst (1 2) collideOuter.simps) simp
  next
    case True
    define os1 where "os1 = collideInner i (i + 1) os"
    have len: "length os1 = length os"
      by (simp add: os1_def length_collideInner)
    have unfold: "collideOuter i os = collideOuter (i + 1) os1"
      using True by (subst collideOuter.simps) (simp add: os1_def)
    have inner:
      "(m = i \<longrightarrow> nearby (2 * real (length os - (i + 1))) (os1 ! m) (os ! m))
       \<and> (i + 1 \<le> m \<longrightarrow> nearby 2 (os1 ! m) (os ! m))
       \<and> (m < i + 1 \<and> m \<noteq> i \<longrightarrow> os1 ! m = os ! m)"
      unfolding os1_def using "1.prems" by (intro collideInner_displacement) simp_all
    have b: "m < length os1"
      using "1.prems" len by simp
    note IH = "1.IH" [OF True b [unfolded os1_def], folded os1_def]
    show ?thesis
    proof (intro conjI impI)
      assume "m < i"
      then show "collideOuter i os ! m = os ! m"
        using IH inner by (simp add: unfold)
    next
      assume "i \<le> m"
      show "nearby (2 * real (length os - 1 - i)) (collideOuter i os ! m) (os ! m)"
      proof (cases "m = i")
        case True
        then have "collideOuter (i + 1) os1 ! m = os1 ! m"
          using IH by simp
        moreover have "length os - (i + 1) = length os - 1 - i"
          by simp
        ultimately show ?thesis
          using inner True by (simp add: unfold)
      next
        case False
        then have later: "i + 1 \<le> m"
          using \<open>i \<le> m\<close> by simp
        then have "nearby (2 * real (length os1 - 1 - (i + 1)) + 2) (collideOuter (i + 1) os1 ! m) (os ! m)"
          using IH inner nearby_trans by blast
        moreover have "2 * real (length os1 - 1 - (i + 1)) + 2 = 2 * real (length os - 1 - i)"
          using later "1.prems" len by (simp add: of_nat_diff)
        ultimately show ?thesis
          by (simp add: unfold)
      qed
    qed
  qed
qed

section \<open>Positions after a tick\<close>

lemma handleBoundaries_inside:
  assumes "radius obj \<le> width - radius obj" and "radius obj \<le> height - radius obj"
  shows "radius (handleBoundaries obj width height) = radius obj
     \<and> radius obj \<le> x (handleBoundaries obj width height)
     \<and> x (handleBoundaries obj width height) \<le> width - radius obj
     \<and> radius obj \<le> y (handleBoundaries obj width height)
     \<and> y (handleBoundaries obj width height) \<le> height - radius obj"
  using assms by (auto simp add: handleBoundaries_def Let_def)

lemma moveAll_inside:
  assumes "\<forall>obj \<in> set (objects sim).
             radius obj \<le> boxWidth sim - radius obj \<and> radius obj \<le> boxHeight sim - radius obj"
  shows "\<forall>obj \<in> set (moveAll sim).
           radius obj \<le> x obj \<and> x obj \<le> boxWidth sim - radius obj
           \<and> radius obj \<le> y obj \<and> y obj \<le> boxHeight sim - radius obj"
proof
  fix moved
  assume "moved \<in> set (moveAll sim)"
  then obtain obj where obj: "obj \<in> set (objects sim)"
    and moved: "moved = handleBoundaries (GameObject_update obj) (boxWidth sim) (boxHeight sim)"
    by (auto simp add: moveAll_def)
  have "radius (GameObject_update obj) = radius obj"
    by (simp add: GameObject_update_def)
  then have "radius (GameObject_update obj) \<le> boxWidth sim - radius (GameObject_update obj)"
    and "radius (GameObject_update obj) \<le> boxHeight sim - radius (GameObject_update obj)"
    using assms obj by simp_all
  then show "radius moved \<le> x moved \<and> x moved \<le> boxWidth sim - radius moved
           \<and> radius moved \<le> y moved \<and> y moved \<le> boxHeight sim - radius moved"
    unfolding moved using handleBoundaries_inside by presburger
qed

lemma collideOuter_no_overlap:
  assumes "\<forall>i k. i < k \<and> k < length objs \<longrightarrow> \<not> collidesWith (objs ! i) (objs ! k)"
  shows "collideOuter j objs = objs"
proof (rule collideOuter_invariant [of "\<lambda>os. os = objs"])
  show "objs = objs" ..
next
  fix os :: "GameObject list" and i k :: nat
  assume "os = objs" and "i < k" and "k < length os" and "collidesWith (os ! i) (os ! k)"
  then have False
    using assms by blast
  then show "os[i := fst (resolveCollision (os ! i) (os ! k)),
               k := snd (resolveCollision (os ! i) (os ! k))] = objs" ..
qed

lemma nearby_bounds:
  assumes "nearby c a b"
    and "radius b \<le> x b \<and> x b \<le> w - radius b \<and> radius b \<le> y b \<and> y b \<le> h - radius b"
  shows "radius a - c \<le> x a \<and> x a \<le> w - radius a + c
         \<and> radius a - c \<le> y a \<and> y a \<le> h - radius a + c"
  using assms by (auto simp add: nearby_def)


lemma sqrt_9: "sqrt 9 = 3"
  using real_sqrt_abs2 [of 3] by simp

lemma sqrt_324: "sqrt 324 = 18"
  using real_sqrt_abs2 [of 18] by simp

lemma tick_nudged_out:
  "objects (RPSSimulator_update
      \<lparr>objects = [\<lparr>type = ROCK, x = 7, y = 50, vx = - 1, vy = 0, radius = 5\<rparr>,
                  \<lparr>type = SCISSORS, x = 10, y = 50, vx = - 1, vy = 0, radius = 5\<rparr>],
       boxWidth = 100, boxHeight = 100, rng = r, generation = g\<rparr>)
   = [\<lparr>type = ROCK, x = 4, y = 50, vx = - 1, vy = 0, radius = 5\<rparr>,
      \<lparr>type = ROCK, x = 11, y = 50, vx = - 1, vy = 0, radius = 5\<rparr>]"
  by (simp add: RPSSimulator_update_def moveAll_def GameObject_update_def handleBoundaries_def
      collideOuter.simps collideInner.simps collidesWith_def resolveCollision_def
      determineWinner_def Let_def sqrt_9)


lemma motion_apart:
  "moveAll
      \<lparr>objects = [\<lparr>type = ROCK, x = 40, y = 50, vx = 1, vy = 0, radius = 5\<rparr>,
                  \<lparr>type = SCISSORS, x = 60, y = 50, vx = - 1, vy = 0, radius = 5\<rparr>],
       boxWidth = 100, boxHeight = 100, rng = r, generation = g\<rparr>
   = [\<lparr>type = ROCK, x = 41, y = 50, vx = 1, vy = 0, radius = 5\<rparr>,
      \<lparr>type = SCISSORS, x = 59, y = 50, vx = - 1, vy = 0, radius = 5\<rparr>]"
  by (simp add: moveAll_def GameObject_update_def handleBoundaries_def)


text \<open>
  C1, as the code has it. In an arena at least as wide and as high as every agent's
  diameter, every agent is inside the bounds after the motion phase of a tick. The
  collision phase is not followed by a reflection: after the completed tick every agent
  is within \<open>2 * (n - 1)\<close> of the bounds in each coordinate, \<open>n\<close> being the number of
  agents, and inside the bounds if no pair overlapped after the motion phase.
\<close>

theorem tick_position_bounds:
  assumes "\<forall>obj \<in> set (objects sim).
             radius obj \<le> boxWidth sim - radius obj \<and> radius obj \<le> boxHeight sim - radius obj"
  shows "(\<forall>obj \<in> set (moveAll sim).
            radius obj \<le> x obj \<and> x obj \<le> boxWidth sim - radius obj
            \<and> radius obj \<le> y obj \<and> y obj \<le> boxHeight sim - radius obj)
     \<and> (\<forall>obj \<in> set (objects (RPSSimulator_update sim)).
            radius obj - 2 * real (length (objects sim) - 1) \<le> x obj
            \<and> x obj \<le> boxWidth sim - radius obj + 2 * real (length (objects sim) - 1)
            \<and> radius obj - 2 * real (length (objects sim) - 1) \<le> y obj
            \<and> y obj \<le> boxHeight sim - radius obj + 2 * real (length (objects sim) - 1))
     \<and> ((\<forall>i k. i < k \<and> k < length (objects sim) \<longrightarrow>
             \<not> collidesWith (moveAll sim ! i) (moveAll sim ! k)) \<longrightarrow>
          (\<forall>obj \<in> set (objects (RPSSimulator_update sim)).
            radius obj \<le> x obj \<and> x obj \<le> boxWidth sim - radius obj
            \<and> radius obj \<le> y obj \<and> y obj \<le> boxHeight sim - radius obj))"
proof (intro conjI impI)
  note moved = moveAll_inside [OF assms]
  show "\<forall>obj \<in> set (moveAll sim).
            radius obj \<le> x obj \<and> x obj \<le> boxWidth sim - radius obj
            \<and> radius obj \<le> y obj \<and> y obj \<le> boxHeight sim - radius obj"
    by (rule moved)
  show "\<forall>obj \<in> set (objects (RPSSimulator_update sim)).
            radius obj - 2 * real (length (objects sim) - 1) \<le> x obj
            \<and> x obj \<le> boxWidth sim - radius obj + 2 * real (length (objects sim) - 1)
            \<and> radius obj - 2 * real (length (objects sim) - 1) \<le> y obj
            \<and> y obj \<le> boxHeight sim - radius obj + 2 * real (length (objects sim) - 1)"
  proof
    fix obj
    assume "obj \<in> set (objects (RPSSimulator_update sim))"
    then obtain m where m: "m < length (moveAll sim)"
      and obj: "obj = collideOuter 0 (moveAll sim) ! m"
      by (auto simp add: RPSSimulator_update_def in_set_conv_nth length_collideOuter)
    have "nearby (2 * real (length (moveAll sim) - 1 - 0)) obj (moveAll sim ! m)"
      unfolding obj using collideOuter_displacement [OF m, of 0] by simp
    then have "nearby (2 * real (length (objects sim) - 1)) obj (moveAll sim ! m)"
      by (simp add: length_moveAll)
    moreover have "moveAll sim ! m \<in> set (moveAll sim)"
      using m by simp
    ultimately show "radius obj - 2 * real (length (objects sim) - 1) \<le> x obj
            \<and> x obj \<le> boxWidth sim - radius obj + 2 * real (length (objects sim) - 1)
            \<and> radius obj - 2 * real (length (objects sim) - 1) \<le> y obj
            \<and> y obj \<le> boxHeight sim - radius obj + 2 * real (length (objects sim) - 1)"
      using moved nearby_bounds by blast
  qed
  assume "\<forall>i k. i < k \<and> k < length (objects sim) \<longrightarrow>
             \<not> collidesWith (moveAll sim ! i) (moveAll sim ! k)"
  then have "collideOuter 0 (moveAll sim) = moveAll sim"
    by (intro collideOuter_no_overlap) (simp add: length_moveAll)
  then show "\<forall>obj \<in> set (objects (RPSSimulator_update sim)).
            radius obj \<le> x obj \<and> x obj \<le> boxWidth sim - radius obj
            \<and> radius obj \<le> y obj \<and> y obj \<le> boxHeight sim - radius obj"
    using moved by (simp add: RPSSimulator_update_def)
qed

theorem tick_position_bounds_witness:
  "(5::real) \<le> 100 - 5
   \<and> radius (moveAll
      \<lparr>objects = [\<lparr>type = ROCK, x = 7, y = 50, vx = - 1, vy = 0, radius = 5\<rparr>,
                  \<lparr>type = SCISSORS, x = 10, y = 50, vx = - 1, vy = 0, radius = 5\<rparr>],
       boxWidth = 100, boxHeight = 100, rng = constant_generator 0, generation = 0\<rparr> ! 0)
     \<le> x (moveAll
      \<lparr>objects = [\<lparr>type = ROCK, x = 7, y = 50, vx = - 1, vy = 0, radius = 5\<rparr>,
                  \<lparr>type = SCISSORS, x = 10, y = 50, vx = - 1, vy = 0, radius = 5\<rparr>],
       boxWidth = 100, boxHeight = 100, rng = constant_generator 0, generation = 0\<rparr> ! 0)
   \<and> radius (objects (RPSSimulator_update
      \<lparr>objects = [\<lparr>type = ROCK, x = 7, y = 50, vx = - 1, vy = 0, radius = 5\<rparr>,
                  \<lparr>type = SCISSORS, x = 10, y = 50, vx = - 1, vy = 0, radius = 5\<rparr>],
       boxWidth = 100, boxHeight = 100, rng = constant_generator 0, generation = 0\<rparr>) ! 0) - 2
     \<le> x (objects (RPSSimulator_update
      \<lparr>objects = [\<lparr>type = ROCK, x = 7, y = 50, vx = - 1, vy = 0, radius = 5\<rparr>,
                  \<lparr>type = SCISSORS, x = 10, y = 50, vx = - 1, vy = 0, radius = 5\<rparr>],
       boxWidth = 100, boxHeight = 100, rng = constant_generator 0, generation = 0\<rparr>) ! 0)
   \<and> \<not> collidesWith
        (moveAll
      \<lparr>objects = [\<lparr>type = ROCK, x = 40, y = 50, vx = 1, vy = 0, radius = 5\<rparr>,
                  \<lparr>type = SCISSORS, x = 60, y = 50, vx = - 1, vy = 0, radius = 5\<rparr>],
       boxWidth = 100, boxHeight = 100, rng = constant_generator 0, generation = 0\<rparr> ! 0)
        (moveAll
      \<lparr>objects = [\<lparr>type = ROCK, x = 40, y = 50, vx = 1, vy = 0, radius = 5\<rparr>,
                  \<lparr>type = SCISSORS, x = 60, y = 50, vx = - 1, vy = 0, radius = 5\<rparr>],
       boxWidth = 100, boxHeight = 100, rng = constant_generator 0, generation = 0\<rparr> ! 1)
   \<and> radius (objects (RPSSimulator_update
      \<lparr>objects = [\<lparr>type = ROCK, x = 40, y = 50, vx = 1, vy = 0, radius = 5\<rparr>,
                  \<lparr>type = SCISSORS, x = 60, y = 50, vx = - 1, vy = 0, radius = 5\<rparr>],
       boxWidth = 100, boxHeight = 100, rng = constant_generator 0, generation = 0\<rparr>) ! 1)
     \<le> x (objects (RPSSimulator_update
      \<lparr>objects = [\<lparr>type = ROCK, x = 40, y = 50, vx = 1, vy = 0, radius = 5\<rparr>,
                  \<lparr>type = SCISSORS, x = 60, y = 50, vx = - 1, vy = 0, radius = 5\<rparr>],
       boxWidth = 100, boxHeight = 100, rng = constant_generator 0, generation = 0\<rparr>) ! 1)"
proof -
  let ?hit = "\<lparr>objects = [\<lparr>type = ROCK, x = 7, y = 50, vx = - 1, vy = 0, radius = 5\<rparr>,
                  \<lparr>type = SCISSORS, x = 10, y = 50, vx = - 1, vy = 0, radius = 5\<rparr>],
       boxWidth = 100, boxHeight = 100, rng = constant_generator 0, generation = 0\<rparr>"
  let ?free = "\<lparr>objects = [\<lparr>type = ROCK, x = 40, y = 50, vx = 1, vy = 0, radius = 5\<rparr>,
                  \<lparr>type = SCISSORS, x = 60, y = 50, vx = - 1, vy = 0, radius = 5\<rparr>],
       boxWidth = 100, boxHeight = 100, rng = constant_generator 0, generation = 0\<rparr>"
  have wf_hit: "\<forall>obj \<in> set (objects ?hit).
      radius obj \<le> boxWidth ?hit - radius obj \<and> radius obj \<le> boxHeight ?hit - radius obj"
    by simp
  have wf_free: "\<forall>obj \<in> set (objects ?free).
      radius obj \<le> boxWidth ?free - radius obj \<and> radius obj \<le> boxHeight ?free - radius obj"
    by simp
  note hit = tick_position_bounds [OF wf_hit]
  note free = tick_position_bounds [OF wf_free]
  have "moveAll ?hit ! 0 \<in> set (moveAll ?hit)"
    by (simp add: length_moveAll)
  then have first: "radius (moveAll ?hit ! 0) \<le> x (moveAll ?hit ! 0)"
    using hit by blast
  have "objects (RPSSimulator_update ?hit) ! 0 \<in> set (objects (RPSSimulator_update ?hit))"
    by (simp add: length_update)
  then have "radius (objects (RPSSimulator_update ?hit) ! 0) - 2 * real (length (objects ?hit) - 1)
      \<le> x (objects (RPSSimulator_update ?hit) ! 0)"
    using hit by blast
  then have second: "radius (objects (RPSSimulator_update ?hit) ! 0) - 2
      \<le> x (objects (RPSSimulator_update ?hit) ! 0)"
    by simp
  have apart: "\<not> collidesWith (moveAll ?free ! 0) (moveAll ?free ! 1)"
    by (simp add: motion_apart collidesWith_def sqrt_324)
  have "\<forall>i k. i < k \<and> k < length (objects ?free) \<longrightarrow>
          \<not> collidesWith (moveAll ?free ! i) (moveAll ?free ! k)"
  proof (intro allI impI)
    fix i k :: nat
    assume "i < k \<and> k < length (objects ?free)"
    then have "i = 0" and "k = 1"
      by simp_all
    then show "\<not> collidesWith (moveAll ?free ! i) (moveAll ?free ! k)"
      using apart by simp
  qed
  moreover have "objects (RPSSimulator_update ?free) ! 1 \<in> set (objects (RPSSimulator_update ?free))"
    by (simp add: length_update)
  ultimately have third: "radius (objects (RPSSimulator_update ?free) ! 1)
      \<le> x (objects (RPSSimulator_update ?free) ! 1)"
    using free by blast
  show ?thesis
    using first second apart third by simp
qed

text \<open>
  C1, as the claim states it, fails. Two agents inside a 100 by 100 arena, at \<open>x = 7\<close> and
  \<open>x = 10\<close>, both moving left by 1: after the motion phase they are at 6 and 9 and
  overlap, and the separation leaves the first at \<open>x = 4\<close>, less than its radius 5, when the
  tick ends.
\<close>

theorem tick_leaves_arena:
  "radius (\<lparr>type = ROCK, x = 7, y = 50, vx = - 1, vy = 0, radius = 5\<rparr>) \<le> 7
   \<and> (7::real) \<le> 100 - 5
   \<and> objects (RPSSimulator_update
      \<lparr>objects = [\<lparr>type = ROCK, x = 7, y = 50, vx = - 1, vy = 0, radius = 5\<rparr>,
                  \<lparr>type = SCISSORS, x = 10, y = 50, vx = - 1, vy = 0, radius = 5\<rparr>],
       boxWidth = 100, boxHeight = 100, rng = constant_generator 0, generation = 0\<rparr>) ! 0
     = \<lparr>type = ROCK, x = 4, y = 50, vx = - 1, vy = 0, radius = 5\<rparr>
   \<and> \<not> radius (objects (RPSSimulator_update
      \<lparr>objects = [\<lparr>type = ROCK, x = 7, y = 50, vx = - 1, vy = 0, radius = 5\<rparr>,
                  \<lparr>type = SCISSORS, x = 10, y = 50, vx = - 1, vy = 0, radius = 5\<rparr>],
       boxWidth = 100, boxHeight = 100, rng = constant_generator 0, generation = 0\<rparr>) ! 0)
     \<le> x (objects (RPSSimulator_update
      \<lparr>objects = [\<lparr>type = ROCK, x = 7, y = 50, vx = - 1, vy = 0, radius = 5\<rparr>,
                  \<lparr>type = SCISSORS, x = 10, y = 50, vx = - 1, vy = 0, radius = 5\<rparr>],
       boxWidth = 100, boxHeight = 100, rng = constant_generator 0, generation = 0\<rparr>) ! 0)"
  by (simp add: tick_nudged_out)


section \<open>Determinism\<close>

lemma rng_update: "rng (RPSSimulator_update sim) = rng sim"
  by (simp add: RPSSimulator_update_def)

lemma rng_funpow: "rng ((RPSSimulator_update ^^ n) sim) = rng sim"
  by (induction n) (simp_all add: rng_update)

lemma update_depends_on_agents:
  assumes "objects sim1 = objects sim2"
    and "boxWidth sim1 = boxWidth sim2" and "boxHeight sim1 = boxHeight sim2"
  shows "objects (RPSSimulator_update sim1) = objects (RPSSimulator_update sim2)
     \<and> boxWidth (RPSSimulator_update sim1) = boxWidth (RPSSimulator_update sim2)
     \<and> boxHeight (RPSSimulator_update sim1) = boxHeight (RPSSimulator_update sim2)"
  using assms by (simp add: RPSSimulator_update_def moveAll_def)

lemma funpow_depends_on_agents:
  assumes "objects sim1 = objects sim2"
    and "boxWidth sim1 = boxWidth sim2" and "boxHeight sim1 = boxHeight sim2"
  shows "objects ((RPSSimulator_update ^^ n) sim1) = objects ((RPSSimulator_update ^^ n) sim2)
     \<and> boxWidth ((RPSSimulator_update ^^ n) sim1) = boxWidth ((RPSSimulator_update ^^ n) sim2)
     \<and> boxHeight ((RPSSimulator_update ^^ n) sim1) = boxHeight ((RPSSimulator_update ^^ n) sim2)"
proof (induction n)
  case 0
  show ?case using assms by simp
next
  case (Suc n)
  then show ?case
    using update_depends_on_agents
      [of "(RPSSimulator_update ^^ n) sim1" "(RPSSimulator_update ^^ n) sim2"]
    by simp
qed

lemma ctor_placement:
  "map (\<lambda>obj. (type obj, x obj, y obj))
       (objects (fst (RPSSimulator_ctor width height seeded gen1)))
   = map (\<lambda>obj. (type obj, x obj, y obj))
       (objects (fst (RPSSimulator_ctor width height seeded gen2)))"
  by (simp add: RPSSimulator_ctor_def initializeObjects_def initializeLoop.simps emplace_back_def
      GameObject_ctor_def uniform_real_distribution_def)

lemma vx_handleBoundaries: "\<bar>vx (handleBoundaries obj width height)\<bar> = \<bar>vx obj\<bar>"
  by (simp add: handleBoundaries_def Let_def)

lemma vx_resolveCollision:
  "vx (fst (resolveCollision a b)) = vx a \<and> vx (snd (resolveCollision a b)) = vx b"
  by (simp add: resolveCollision_def Let_def)

lemma vx_collideOuter: "map vx (collideOuter i objs) = map vx objs"
proof (rule collideOuter_invariant [of "\<lambda>os. map vx os = map vx objs"])
  show "map vx objs = map vx objs" ..
next
  fix os :: "GameObject list" and i k :: nat
  assume same: "map vx os = map vx objs"
  have "map vx (os[i := fst (resolveCollision (os ! i) (os ! k)),
                   k := snd (resolveCollision (os ! i) (os ! k))])
        = (map vx os)[i := vx (os ! i), k := vx (os ! k)]"
    by (simp only: map_update vx_resolveCollision)
  also have "\<dots> = map vx (os[i := os ! i, k := os ! k])"
    by (simp only: map_update)
  also have "\<dots> = map vx os"
    by (simp only: list_update_id)
  finally show "map vx (os[i := fst (resolveCollision (os ! i) (os ! k)),
                       k := snd (resolveCollision (os ! i) (os ! k))]) = map vx objs"
    using same by simp
qed

lemma speed_update:
  assumes "m < length (objects sim)"
  shows "\<bar>vx (objects (RPSSimulator_update sim) ! m)\<bar> = \<bar>vx (objects sim ! m)\<bar>"
proof -
  have "vx (collideOuter 0 (moveAll sim) ! m) = map vx (collideOuter 0 (moveAll sim)) ! m"
    using assms by (simp add: length_collideOuter length_moveAll)
  also have "\<dots> = vx (moveAll sim ! m)"
    using assms by (simp add: vx_collideOuter length_moveAll)
  finally show ?thesis
    using assms
    by (simp add: RPSSimulator_update_def moveAll_def vx_handleBoundaries GameObject_update_def)
qed

lemma ctor_first_velocity:
  "vx (objects (fst (RPSSimulator_ctor 100 100 (constant_generator (1/2)) (constant_generator u))) ! 0)
     = - 2 + 4 * u"
  by (simp add: RPSSimulator_ctor_def initializeObjects_def initializeLoop.simps emplace_back_def
      GameObject_ctor_def uniform_real_distribution_def constant_generator_def)


text \<open>
  C2, as the code has it. The constructor has no seed parameter. The generator it seeds
  fixes the kinds and the start positions only; the velocities come from the generator
  inside the \<open>GameObject\<close> constructor. A tick draws nothing: it leaves \<open>rng\<close> as it is,
  and two arenas with the same agents, width and height have the same agents after any
  number of ticks.
\<close>

theorem runs_determined_by_agents:
  "map (\<lambda>obj. (type obj, x obj, y obj))
       (objects (fst (RPSSimulator_ctor width height seeded gen1)))
     = map (\<lambda>obj. (type obj, x obj, y obj))
       (objects (fst (RPSSimulator_ctor width height seeded gen2)))
   \<and> rng ((RPSSimulator_update ^^ n) sim1) = rng sim1
   \<and> (objects sim1 = objects sim2 \<and> boxWidth sim1 = boxWidth sim2
        \<and> boxHeight sim1 = boxHeight sim2 \<longrightarrow>
      objects ((RPSSimulator_update ^^ n) sim1) = objects ((RPSSimulator_update ^^ n) sim2))"
  using ctor_placement [of width height seeded gen1 gen2] rng_funpow [of n sim1]
    funpow_depends_on_agents [of sim1 sim2 n]
  by blast


theorem runs_determined_by_agents_witness:
  "objects \<lparr>objects = [\<lparr>type = ROCK, x = 40, y = 50, vx = 1, vy = 0, radius = 5\<rparr>,
                       \<lparr>type = SCISSORS, x = 60, y = 50, vx = - 1, vy = 0, radius = 5\<rparr>],
            boxWidth = 100, boxHeight = 100, rng = constant_generator 0, generation = 0\<rparr>
     = objects \<lparr>objects = [\<lparr>type = ROCK, x = 40, y = 50, vx = 1, vy = 0, radius = 5\<rparr>,
                       \<lparr>type = SCISSORS, x = 60, y = 50, vx = - 1, vy = 0, radius = 5\<rparr>],
            boxWidth = 100, boxHeight = 100, rng = constant_generator (1/2), generation = 7\<rparr>
   \<and> objects ((RPSSimulator_update ^^ 6)
         \<lparr>objects = [\<lparr>type = ROCK, x = 40, y = 50, vx = 1, vy = 0, radius = 5\<rparr>,
                       \<lparr>type = SCISSORS, x = 60, y = 50, vx = - 1, vy = 0, radius = 5\<rparr>],
            boxWidth = 100, boxHeight = 100, rng = constant_generator 0, generation = 0\<rparr>)
     = objects ((RPSSimulator_update ^^ 6)
         \<lparr>objects = [\<lparr>type = ROCK, x = 40, y = 50, vx = 1, vy = 0, radius = 5\<rparr>,
                       \<lparr>type = SCISSORS, x = 60, y = 50, vx = - 1, vy = 0, radius = 5\<rparr>],
            boxWidth = 100, boxHeight = 100, rng = constant_generator (1/2), generation = 7\<rparr>)"
proof -
  let ?run1 = "\<lparr>objects = [\<lparr>type = ROCK, x = 40, y = 50, vx = 1, vy = 0, radius = 5\<rparr>,
                       \<lparr>type = SCISSORS, x = 60, y = 50, vx = - 1, vy = 0, radius = 5\<rparr>],
            boxWidth = 100, boxHeight = 100, rng = constant_generator 0, generation = 0\<rparr>"
  let ?run2 = "\<lparr>objects = [\<lparr>type = ROCK, x = 40, y = 50, vx = 1, vy = 0, radius = 5\<rparr>,
                       \<lparr>type = SCISSORS, x = 60, y = 50, vx = - 1, vy = 0, radius = 5\<rparr>],
            boxWidth = 100, boxHeight = 100, rng = constant_generator (1/2), generation = 7\<rparr>"
  have same: "objects ?run1 = objects ?run2 \<and> boxWidth ?run1 = boxWidth ?run2
      \<and> boxHeight ?run1 = boxHeight ?run2"
    by simp
  have "objects ((RPSSimulator_update ^^ 6) ?run1) = objects ((RPSSimulator_update ^^ 6) ?run2)"
    using same runs_determined_by_agents [where ?sim1.0 = ?run1 and ?sim2.0 = ?run2 and n = 6]
    by blast
  then show ?thesis
    by simp
qed


text \<open>
  C2, as the claim states it, fails. Two constructions with the same width, height and
  seeded generator, but different states of the velocity generator, differ in the
  velocity of the first agent, at construction and after one tick.
\<close>

theorem same_seed_different_runs:
  "vx (objects (fst (RPSSimulator_ctor 100 100
         (constant_generator (1/2)) (constant_generator 0))) ! 0) = - 2
   \<and> vx (objects (fst (RPSSimulator_ctor 100 100
         (constant_generator (1/2)) (constant_generator (1/2)))) ! 0) = 0
   \<and> fst (RPSSimulator_ctor 100 100 (constant_generator (1/2)) (constant_generator 0))
       \<noteq> fst (RPSSimulator_ctor 100 100 (constant_generator (1/2)) (constant_generator (1/2)))
   \<and> objects (RPSSimulator_update
         (fst (RPSSimulator_ctor 100 100 (constant_generator (1/2)) (constant_generator 0))))
       \<noteq> objects (RPSSimulator_update
         (fst (RPSSimulator_ctor 100 100 (constant_generator (1/2)) (constant_generator (1/2)))))"
proof -
  let ?run1 = "fst (RPSSimulator_ctor 100 100 (constant_generator (1/2)) (constant_generator 0))"
  let ?run2 = "fst (RPSSimulator_ctor 100 100 (constant_generator (1/2)) (constant_generator (1/2)))"
  have v1: "vx (objects ?run1 ! 0) = - 2"
    using ctor_first_velocity [of 0] by simp
  have v2: "vx (objects ?run2 ! 0) = 0"
    using ctor_first_velocity [of "1/2"] by simp
  have start: "?run1 \<noteq> ?run2"
    using v1 v2 by auto
  have "\<bar>vx (objects (RPSSimulator_update ?run1) ! 0)\<bar> = 2"
    using speed_update [of 0 ?run1] v1 by (simp add: length_ctor)
  moreover have "\<bar>vx (objects (RPSSimulator_update ?run2) ! 0)\<bar> = 0"
    using speed_update [of 0 ?run2] v2 by (simp add: length_ctor)
  ultimately have "objects (RPSSimulator_update ?run1) \<noteq> objects (RPSSimulator_update ?run2)"
    by auto
  then show ?thesis
    using v1 v2 start by blast
qed

end
